theory Spec2Isabelle
  imports Complex_Main "HOL-Library.Multiset"
begin

section \<open>Data model\<close>

text \<open>
  The analyser of \<^verbatim>\<open>src/services/deforestation_analyzer.py\<close> works on Python floats.
  They are read in two ways. In exact arithmetic a float is a \<^typ>\<open>real\<close>, \<^verbatim>\<open>math.cos\<close>
  is \<^const>\<open>cos\<close> and \<^verbatim>\<open>math.radians\<close> multiplies by \<open>pi / 180\<close>: this reading serves
  where a property does not depend on rounding or overflow. In double precision (the
  functions with the suffix \<open>_fp\<close>) every operation rounds, overflows to an infinity
  and propagates NaN as the interpreter does.

  A coordinate list is \<^verbatim>\<open>List[List[float]]\<close>; the code reads \<^verbatim>\<open>coord[0]\<close> (longitude)
  and \<^verbatim>\<open>coord[1]\<close> (latitude) of every vertex and nothing else, so a vertex is the
  pair of these two components.
\<close>

type_synonym vertex = "real \<times> real"

type_synonym coordinates = "vertex list"

definition lon :: "vertex \<Rightarrow> real" where
  "lon coord = fst coord"

definition lat :: "vertex \<Rightarrow> real" where
  "lat coord = snd coord"

datatype error = ZeroDivisionError | ValueError

section \<open>Geometry: \<^verbatim>\<open>_calculate_area\<close>\<close>

definition radians :: "real \<Rightarrow> real" where
  "radians x = x * pi / 180"

definition deg_to_meters :: "real \<Rightarrow> real \<Rightarrow> real \<times> real" where
  "deg_to_meters lat_deg lon_deg =
     (let lat_m = lat_deg * 111320;
          lon_m = lon_deg * 111320 * cos (radians lat_deg)
      in (lat_m, lon_m))"

text \<open>
  One round of the loop \<^verbatim>\<open>for i in range(n)\<close>: the summand added to \<^verbatim>\<open>area\<close> for
  index \<open>i\<close>, with \<^verbatim>\<open>j = (i + 1) % n\<close>. Both indices are below \<open>n\<close> whenever \<open>i\<close> is.
\<close>

definition shoelace_step :: "coordinates \<Rightarrow> real \<Rightarrow> nat \<Rightarrow> real" where
  "shoelace_step coordinates area i =
     (let n = length coordinates;
          j = (i + 1) mod n;
          (lat1, lon1) = deg_to_meters (lat (coordinates ! i)) (lon (coordinates ! i));
          (lat2, lon2) = deg_to_meters (lat (coordinates ! j)) (lon (coordinates ! j))
      in area + (lat1 * lon2 - lat2 * lon1))"

definition calculate_area :: "coordinates \<Rightarrow> real" where
  "calculate_area coordinates =
     (if length coordinates < 3 then 0
      else
        let n = length coordinates;
            area = foldl (shoelace_step coordinates) 0 [0..<n];
            area = \<bar>area\<bar> / 2;
            area_hectares = area / 10000
        in max area_hectares 1)"

section \<open>Risk classifier: \<^verbatim>\<open>_get_location_risk_factor\<close>\<close>

text \<open>
  \<^verbatim>\<open>sum(...) / len(coordinates)\<close>: Python raises \<^verbatim>\<open>ZeroDivisionError\<close> when the list is
  empty; the first of the two divisions already does.
\<close>

definition py_truediv :: "real \<Rightarrow> nat \<Rightarrow> error + real" where
  "py_truediv a n = (if n = 0 then Inl ZeroDivisionError else Inr (a / real n))"

definition region_factor :: "real \<Rightarrow> real \<Rightarrow> real" where
  "region_factor center_lat center_lon =
     (if -10 \<le> center_lat \<and> center_lat \<le> 10 \<and> -80 \<le> center_lon \<and> center_lon \<le> -40 then 0.8
      else if -10 \<le> center_lat \<and> center_lat \<le> 10 \<and> 10 \<le> center_lon \<and> center_lon \<le> 35 then 0.7
      else if -10 \<le> center_lat \<and> center_lat \<le> 20 \<and> 90 \<le> center_lon \<and> center_lon \<le> 150 then 0.6
      else if 35 \<le> center_lat \<and> center_lat \<le> 70 \<and> -10 \<le> center_lon \<and> center_lon \<le> 50 then 0.2
      else 0.4)"

definition get_location_risk_factor :: "coordinates \<Rightarrow> error + real" where
  "get_location_risk_factor coordinates =
     (case py_truediv (sum_list (map lat coordinates)) (length coordinates) of
        Inl e \<Rightarrow> Inl e
      | Inr center_lat \<Rightarrow>
          (case py_truediv (sum_list (map lon coordinates)) (length coordinates) of
             Inl e \<Rightarrow> Inl e
           | Inr center_lon \<Rightarrow> Inr (region_factor center_lat center_lon)))"

section \<open>The random source\<close>

text \<open>
  The module draws from Python's global generator. Its outcomes are an input of the
  model: \<open>random_outcomes g k\<close> is what \<^verbatim>\<open>random.random()\<close> yields when it is the
  \<open>k\<close>-th draw, \<open>randbelow_outcomes g k\<close> the index an index draw yields then (reduced
  below the length of the sequence), and \<open>calls g\<close> counts the draws made so far.
  \<^verbatim>\<open>random.uniform(a, b)\<close> is \<^verbatim>\<open>a + (b - a) * random()\<close> and
  \<^verbatim>\<open>random.choice(seq)\<close> is \<^verbatim>\<open>seq[randbelow(len(seq))]\<close>.
\<close>

record rng =
  random_outcomes :: "nat \<Rightarrow> real"
  randbelow_outcomes :: "nat \<Rightarrow> nat"
  calls :: nat

definition random_uniform :: "real \<Rightarrow> real \<Rightarrow> rng \<Rightarrow> real \<times> rng" where
  "random_uniform a b g =
     (a + (b - a) * random_outcomes g (calls g), g\<lparr>calls := calls g + 1\<rparr>)"

definition random_choice :: "'a list \<Rightarrow> rng \<Rightarrow> 'a \<times> rng" where
  "random_choice seq g =
     (seq ! (randbelow_outcomes g (calls g) mod length seq), g\<lparr>calls := calls g + 1\<rparr>)"

section \<open>Time span: \<^verbatim>\<open>_calculate_time_span\<close>\<close>

text \<open>
  \<^verbatim>\<open>datetime.strptime(s, '%Y-%m-%d')\<close> of the Python standard library. The format is
  compiled to the regular expression
  \<^verbatim>\<open>(?P<Y>\d\d\d\d)-(?P<m>1[0-2]|0[1-9]|[1-9])-(?P<d>3[0-1]|[1-2]\d|0[1-9]|[1-9]| [1-9])\<close>,
  matched at the start of the string with the alternatives tried in this order; the
  first successful match must consume the whole string, and the three numbers must
  form a date of the proleptic Gregorian calendar with year at least 1. Every failure
  is a \<^verbatim>\<open>ValueError\<close>. A directive yields its possible matches in the order the regular
  expression tries them, each with the rest of the input. Strings are lists of 8-bit
  characters, whose only decimal digits are \<open>0\<close> to \<open>9\<close>.
\<close>

definition is_digit :: "char \<Rightarrow> bool" where
  "is_digit c = (48 \<le> (of_char c :: nat) \<and> (of_char c :: nat) \<le> 57)"

definition digit_value :: "char \<Rightarrow> int" where
  "digit_value c = int (of_char c) - 48"

definition literal :: "char \<Rightarrow> string \<Rightarrow> string list" where
  "literal c s = (case s of [] \<Rightarrow> [] | a # rest \<Rightarrow> if a = c then [rest] else [])"

definition directive_Y :: "string \<Rightarrow> (int \<times> string) list" where
  "directive_Y s =
     (case s of
        a # b # c # d # rest \<Rightarrow>
          if is_digit a \<and> is_digit b \<and> is_digit c \<and> is_digit d
          then [(1000 * digit_value a + 100 * digit_value b + 10 * digit_value c + digit_value d, rest)]
          else []
      | _ \<Rightarrow> [])"

definition two_chars :: "(char \<Rightarrow> bool) \<Rightarrow> (char \<Rightarrow> bool) \<Rightarrow> string \<Rightarrow> (int \<times> string) list" where
  "two_chars p q s =
     (case s of
        a # b # rest \<Rightarrow> if p a \<and> q b then [(10 * digit_value a + digit_value b, rest)] else []
      | _ \<Rightarrow> [])"

definition one_char :: "(char \<Rightarrow> bool) \<Rightarrow> string \<Rightarrow> (int \<times> string) list" where
  "one_char p s =
     (case s of a # rest \<Rightarrow> if p a then [(digit_value a, rest)] else [] | _ \<Rightarrow> [])"

definition in_range :: "char \<Rightarrow> char \<Rightarrow> char \<Rightarrow> bool" where
  "in_range lo hi c = ((of_char lo :: nat) \<le> of_char c \<and> (of_char c :: nat) \<le> of_char hi)"

definition directive_m :: "string \<Rightarrow> (int \<times> string) list" where
  "directive_m s =
     two_chars (\<lambda>c. c = CHR ''1'') (in_range CHR ''0'' CHR ''2'') s
     @ two_chars (\<lambda>c. c = CHR ''0'') (in_range CHR ''1'' CHR ''9'') s
     @ one_char (in_range CHR ''1'' CHR ''9'') s"

definition directive_d :: "string \<Rightarrow> (int \<times> string) list" where
  "directive_d s =
     two_chars (\<lambda>c. c = CHR ''3'') (in_range CHR ''0'' CHR ''1'') s
     @ two_chars (in_range CHR ''1'' CHR ''2'') is_digit s
     @ two_chars (\<lambda>c. c = CHR ''0'') (in_range CHR ''1'' CHR ''9'') s
     @ one_char (in_range CHR ''1'' CHR ''9'') s
     @ concat (map (one_char (in_range CHR ''1'' CHR ''9'')) (literal CHR '' '' s))"

definition format_regex_match :: "string \<Rightarrow> (int \<times> int \<times> int \<times> string) option" where
  "format_regex_match s =
     (case concat (map (\<lambda>(y, r0).
             concat (map (\<lambda>r1.
               concat (map (\<lambda>(m, r2).
                 concat (map (\<lambda>r3.
                   map (\<lambda>(d, r4). (y, m, d, r4)) (directive_d r3))
                 (literal CHR ''-'' r2)))
               (directive_m r1)))
             (literal CHR ''-'' r0)))
           (directive_Y s))
      of [] \<Rightarrow> None | found # _ \<Rightarrow> Some found)"

definition is_leap :: "int \<Rightarrow> bool" where
  "is_leap year = (year mod 4 = 0 \<and> (year mod 100 \<noteq> 0 \<or> year mod 400 = 0))"

definition days_in_month :: "int \<Rightarrow> int \<Rightarrow> int" where
  "days_in_month year month =
     (if month = 2 \<and> is_leap year then 29
      else [31, 28, 31, 30, 31, 30, 31, 31, 30, 31, 30, 31] ! nat (month - 1))"

definition days_before_year :: "int \<Rightarrow> int" where
  "days_before_year year =
     (let y = year - 1 in y * 365 + y div 4 - y div 100 + y div 400)"

definition days_before_month :: "int \<Rightarrow> int \<Rightarrow> int" where
  "days_before_month year month =
     [0, 31, 59, 90, 120, 151, 181, 212, 243, 273, 304, 334] ! nat (month - 1)
       + (if month > 2 \<and> is_leap year then 1 else 0)"

type_synonym date = "int \<times> int \<times> int"

definition ymd2ord :: "date \<Rightarrow> int" where
  "ymd2ord dt = (case dt of (year, month, day) \<Rightarrow>
     days_before_year year + days_before_month year month + day)"

definition valid_date :: "date \<Rightarrow> bool" where
  "valid_date dt = (case dt of (year, month, day) \<Rightarrow>
     1 \<le> year \<and> year \<le> 9999 \<and> 1 \<le> month \<and> month \<le> 12
       \<and> 1 \<le> day \<and> day \<le> days_in_month year month)"

definition strptime :: "string \<Rightarrow> error + date" where
  "strptime data_string =
     (case format_regex_match data_string of
        None \<Rightarrow> Inl ValueError
      | Some (year, month, day, rest) \<Rightarrow>
          if rest \<noteq> [] then Inl ValueError
          else if valid_date (year, month, day) then Inr (year, month, day)
          else Inl ValueError)"

text \<open>
  The body of \<^verbatim>\<open>_calculate_time_span\<close>: both dates are parsed inside the \<^verbatim>\<open>try\<close>, the
  bare \<^verbatim>\<open>except\<close> turns every failure into 365, and \<^verbatim>\<open>(end - start).days\<close> of two
  midnights is the difference of their ordinals.
\<close>

definition calculate_time_span :: "string \<Rightarrow> string \<Rightarrow> int" where
  "calculate_time_span start_date end_date =
     (case strptime start_date of
        Inl e \<Rightarrow> 365
      | Inr start \<Rightarrow>
          (case strptime end_date of
             Inl e \<Rightarrow> 365
           | Inr end_dt \<Rightarrow> ymd2ord end_dt - ymd2ord start))"

text \<open>
  The text of a date in the form YYYY-MM-DD, every field padded with zeros, as
  \<^verbatim>\<open>date.isoformat()\<close> writes it. The descriptors the imagery service builds carry their
  dates in this form.
\<close>

definition digit_char :: "int \<Rightarrow> char" where
  "digit_char n = ''0123456789'' ! nat n"

definition isoformat :: "date \<Rightarrow> string" where
  "isoformat dt = (case dt of (year, month, day) \<Rightarrow>
     [digit_char (year div 1000), digit_char (year div 100 mod 10),
      digit_char (year div 10 mod 10), digit_char (year mod 10), CHR ''-'',
      digit_char (month div 10), digit_char (month mod 10), CHR ''-'',
      digit_char (day div 10), digit_char (day mod 10)])"

text \<open>
  The calendar day after a date: the next day of the month, else the first of the next
  month, else the first of January of the next year. It serves to state what a
  difference in whole days is; the source has no counterpart.
\<close>

definition next_day :: "date \<Rightarrow> date" where
  "next_day dt = (case dt of (year, month, day) \<Rightarrow>
     if day < days_in_month year month then (year, month, day + 1)
     else if month < 12 then (year, month + 1, 1)
     else (year + 1, 1, 1))"

section \<open>Image descriptors\<close>

text \<open>
  An image descriptor is the dictionary the imagery service builds (the fields of
  \<^verbatim>\<open>SatelliteImage\<close>). The analyser subscripts \<^verbatim>\<open>'date'\<close> and reads
  \<^verbatim>\<open>'cloud_coverage'\<close> through \<^verbatim>\<open>.get(..., 0)\<close>, so that key may be absent.
\<close>

record satellite_image =
  url :: string
  date :: string
  cloud_coverage :: "real option"
  resolution :: string
  product_id :: "string option"

definition get_default :: "'a option \<Rightarrow> 'a \<Rightarrow> 'a" where
  "get_default v dflt = (case v of None \<Rightarrow> dflt | Some x \<Rightarrow> x)"

section \<open>Double-precision arithmetic\<close>

text \<open>
  Python's \<^verbatim>\<open>float\<close> is the IEEE 754 binary64 format. A value is a finite number, an
  infinity or NaN. An operation on finite numbers rounds its exact result to the
  nearest number with a 53-bit significand, ties to the even one (the spacing below
  \<open>2 ^ - 1022\<close> is \<open>2 ^ - 1074\<close>), and gives an infinity when the exact result reaches
  \<open>2 ^ 1024 - 2 ^ 970\<close> in magnitude. The sign of zero is not tracked. Inputs and the
  draws of the generator are numbers of the format already.
\<close>

datatype pyfloat = Finite real | PosInf | NegInf | NaN

definition round_half_even :: "real \<Rightarrow> int" where
  "round_half_even x =
     (let f = \<lfloor>x\<rfloor> in
      if x - of_int f < 1 / 2 then f
      else if 1 / 2 < x - of_int f then f + 1
      else if even f then f else f + 1)"

definition ulp_exponent :: "real \<Rightarrow> int" where
  "ulp_exponent x = max (\<lfloor>log 2 \<bar>x\<bar>\<rfloor> - 52) (- 1074)"

definition round_double :: "real \<Rightarrow> real" where
  "round_double x =
     (if x = 0 then 0
      else of_int (round_half_even (x / 2 powr of_int (ulp_exponent x)))
             * 2 powr of_int (ulp_exponent x))"

definition overflow_threshold :: real where
  "overflow_threshold = 2 ^ 1024 - 2 ^ 970"

definition fl :: "real \<Rightarrow> pyfloat" where
  "fl x = (if overflow_threshold \<le> x then PosInf
           else if x \<le> - overflow_threshold then NegInf
           else Finite (round_double x))"


definition fl_lit :: "real \<Rightarrow> pyfloat" where
  "fl_lit x = Finite (round_double x)"

fun fneg :: "pyfloat \<Rightarrow> pyfloat" where
  "fneg (Finite a) = Finite (- a)"
| "fneg PosInf = NegInf"
| "fneg NegInf = PosInf"
| "fneg NaN = NaN"

fun fabs :: "pyfloat \<Rightarrow> pyfloat" where
  "fabs (Finite a) = Finite \<bar>a\<bar>"
| "fabs PosInf = PosInf"
| "fabs NegInf = PosInf"
| "fabs NaN = NaN"

fun fadd :: "pyfloat \<Rightarrow> pyfloat \<Rightarrow> pyfloat" where
  "fadd NaN y = NaN"
| "fadd x NaN = NaN"
| "fadd PosInf NegInf = NaN"
| "fadd NegInf PosInf = NaN"
| "fadd PosInf y = PosInf"
| "fadd NegInf y = NegInf"
| "fadd x PosInf = PosInf"
| "fadd x NegInf = NegInf"
| "fadd (Finite a) (Finite b) = fl (a + b)"

definition fsub :: "pyfloat \<Rightarrow> pyfloat \<Rightarrow> pyfloat" where
  "fsub x y = fadd x (fneg y)"

fun fmul :: "pyfloat \<Rightarrow> pyfloat \<Rightarrow> pyfloat" where
  "fmul NaN y = NaN"
| "fmul x NaN = NaN"
| "fmul (Finite a) (Finite b) = fl (a * b)"
| "fmul (Finite a) y = (if a = 0 then NaN else if 0 < a then y else fneg y)"
| "fmul x (Finite b) = (if b = 0 then NaN else if 0 < b then x else fneg x)"
| "fmul PosInf y = y"
| "fmul NegInf y = fneg y"

text \<open>
  \<open>fdiv\<close> is the quotient for a divisor that is not zero. Where the divisor can be
  zero Python raises, which \<open>float_truediv\<close> makes explicit.
\<close>

fun fdiv :: "pyfloat \<Rightarrow> pyfloat \<Rightarrow> pyfloat" where
  "fdiv NaN y = NaN"
| "fdiv x NaN = NaN"
| "fdiv (Finite a) (Finite b) = fl (a / b)"
| "fdiv (Finite a) y = Finite 0"
| "fdiv x (Finite b) = (if 0 < b then x else fneg x)"
| "fdiv x y = NaN"

definition float_truediv :: "pyfloat \<Rightarrow> pyfloat \<Rightarrow> error + pyfloat" where
  "float_truediv x y = (if y = Finite 0 then Inl ZeroDivisionError else Inr (fdiv x y))"

text \<open>Comparisons: every comparison with NaN is false.\<close>

fun flt :: "pyfloat \<Rightarrow> pyfloat \<Rightarrow> bool" where
  "flt NaN y = False"
| "flt x NaN = False"
| "flt (Finite a) (Finite b) = (a < b)"
| "flt x NegInf = False"
| "flt PosInf y = False"
| "flt x y = True"

fun fle :: "pyfloat \<Rightarrow> pyfloat \<Rightarrow> bool" where
  "fle NaN y = False"
| "fle x NaN = False"
| "fle (Finite a) (Finite b) = (a \<le> b)"
| "fle NegInf y = True"
| "fle x PosInf = True"
| "fle x y = False"

text \<open>
  \<^verbatim>\<open>max(a, b)\<close> and \<^verbatim>\<open>min(a, b)\<close> keep the first argument unless the second is
  strictly greater (smaller): with NaN first, NaN is returned.
\<close>

definition py_max :: "pyfloat \<Rightarrow> pyfloat \<Rightarrow> pyfloat" where
  "py_max a b = (if flt a b then b else a)"

definition py_min :: "pyfloat \<Rightarrow> pyfloat \<Rightarrow> pyfloat" where
  "py_min a b = (if flt b a then b else a)"

section \<open>The analyser in double precision\<close>

text \<open>
  The same functions with every arithmetic operation, comparison and literal of the
  source read in double precision. \<^verbatim>\<open>math.radians\<close> multiplies by the double nearest to
  \<open>pi / 180\<close>; the latitude is a double, so this product stays finite and \<^verbatim>\<open>math.cos\<close>
  is applied to a finite number, its result taken as the double nearest to the cosine.
  Integers of the source (\<^verbatim>\<open>111320\<close>, \<^verbatim>\<open>0\<close>, \<^verbatim>\<open>len(coordinates)\<close>) convert exactly.
  \<^verbatim>\<open>sum\<close> adds its items from the left, one rounded addition per item.
\<close>

definition deg_to_rad :: real where
  "deg_to_rad = 5030569068109113 / 288230376151711744"

definition radians_fp :: "real \<Rightarrow> real" where
  "radians_fp x = round_double (x * deg_to_rad)"

definition cos_fp :: "real \<Rightarrow> real" where
  "cos_fp x = round_double (cos x)"

definition deg_to_meters_fp :: "real \<Rightarrow> real \<Rightarrow> pyfloat \<times> pyfloat" where
  "deg_to_meters_fp lat_deg lon_deg =
     (let lat_m = fmul (Finite lat_deg) (Finite 111320);
          lon_m = fmul (fmul (Finite lon_deg) (Finite 111320)) (Finite (cos_fp (radians_fp lat_deg)))
      in (lat_m, lon_m))"

definition shoelace_step_fp :: "coordinates \<Rightarrow> pyfloat \<Rightarrow> nat \<Rightarrow> pyfloat" where
  "shoelace_step_fp coordinates area i =
     (let n = length coordinates;
          j = (i + 1) mod n;
          (lat1, lon1) = deg_to_meters_fp (lat (coordinates ! i)) (lon (coordinates ! i));
          (lat2, lon2) = deg_to_meters_fp (lat (coordinates ! j)) (lon (coordinates ! j))
      in fadd area (fsub (fmul lat1 lon2) (fmul lat2 lon1)))"

definition calculate_area_fp :: "coordinates \<Rightarrow> pyfloat" where
  "calculate_area_fp coordinates =
     (if length coordinates < 3 then Finite 0
      else
        let n = length coordinates;
            area = foldl (shoelace_step_fp coordinates) (Finite 0) [0..<n];
            area = fdiv (fabs area) (Finite 2);
            area_hectares = fdiv area (Finite 10000)
        in py_max area_hectares (Finite 1))"

definition float_sum :: "real list \<Rightarrow> pyfloat" where
  "float_sum xs = foldl fadd (Finite 0) (map Finite xs)"

definition center_fp :: "real list \<Rightarrow> error + pyfloat" where
  "center_fp xs = float_truediv (float_sum xs) (Finite (real (length xs)))"

definition region_factor_fp :: "pyfloat \<Rightarrow> pyfloat \<Rightarrow> pyfloat" where
  "region_factor_fp center_lat center_lon =
     (if fle (Finite (- 10)) center_lat \<and> fle center_lat (Finite 10)
         \<and> fle (Finite (- 80)) center_lon \<and> fle center_lon (Finite (- 40)) then fl_lit 0.8
      else if fle (Finite (- 10)) center_lat \<and> fle center_lat (Finite 10)
         \<and> fle (Finite 10) center_lon \<and> fle center_lon (Finite 35) then fl_lit 0.7
      else if fle (Finite (- 10)) center_lat \<and> fle center_lat (Finite 20)
         \<and> fle (Finite 90) center_lon \<and> fle center_lon (Finite 150) then fl_lit 0.6
      else if fle (Finite 35) center_lat \<and> fle center_lat (Finite 70)
         \<and> fle (Finite (- 10)) center_lon \<and> fle center_lon (Finite 50) then fl_lit 0.2
      else fl_lit 0.4)"

definition get_location_risk_factor_fp :: "coordinates \<Rightarrow> error + pyfloat" where
  "get_location_risk_factor_fp coordinates =
     (case center_fp (map lat coordinates) of
        Inl e \<Rightarrow> Inl e
      | Inr center_lat \<Rightarrow>
          (case center_fp (map lon coordinates) of
             Inl e \<Rightarrow> Inl e
           | Inr center_lon \<Rightarrow> Inr (region_factor_fp center_lat center_lon)))"

definition random_uniform_fp :: "pyfloat \<Rightarrow> pyfloat \<Rightarrow> rng \<Rightarrow> pyfloat \<times> rng" where
  "random_uniform_fp a b g =
     (fadd a (fmul (fsub b a) (Finite (random_outcomes g (calls g)))), g\<lparr>calls := calls g + 1\<rparr>)"

record fp_temporal_analysis =
  historical_period :: string
  current_period :: string
  time_span_days :: int

record fp_risk_factors =
  area_size :: pyfloat
  geographic_risk :: pyfloat
  cloud_coverage_impact :: pyfloat

record fp_detailed_report =
  ndvi_change :: pyfloat
  vegetation_loss :: bool
  analysis_method :: string
  temporal_analysis :: fp_temporal_analysis
  risk_factors :: fp_risk_factors

record fp_change_result =
  deforestation_detected :: bool
  confidence_score :: pyfloat
  area_analyzed :: pyfloat
  forest_loss_area :: pyfloat
  change_percentage :: pyfloat
  detailed_report :: fp_detailed_report

definition analyze_change_fp ::
  "satellite_image \<Rightarrow> satellite_image \<Rightarrow> coordinates \<Rightarrow> rng \<Rightarrow> error + (fp_change_result \<times> rng)" where
  "analyze_change_fp historical_image current_image coordinates g =
     (let area_hectares = calculate_area_fp coordinates;
          area_factor = py_min (fdiv area_hectares (Finite 100)) (Finite 1)
      in case get_location_risk_factor_fp coordinates of
           Inl e \<Rightarrow> Inl e
         | Inr location_factor \<Rightarrow>
             let base_probability = fl_lit 0.3;
                 deforestation_probability =
                   fdiv (fmul base_probability (fadd area_factor location_factor)) (Finite 2);
                 deforestation_probability =
                   py_min (py_max deforestation_probability (fl_lit 0.1)) (fl_lit 0.9);
                 detected = flt (fl_lit 0.5) deforestation_probability;
                 (loss_area, ndvi, g) =
                   (if detected then
                      let (u, g) = random_uniform_fp (fl_lit 0.1) (fl_lit 0.4) g;
                          (v, g) = random_uniform_fp (fl_lit 0.2) (fl_lit 0.4) g
                      in (fmul area_hectares u, fneg v, g)
                    else
                      let (v, g) = random_uniform_fp (fneg (fl_lit 0.1)) (fl_lit 0.1) g
                      in (Finite 0, v, g))
             in Inr (\<lparr> deforestation_detected = detected,
                        confidence_score = deforestation_probability,
                        area_analyzed = area_hectares,
                        forest_loss_area = loss_area,
                        change_percentage =
                          (if flt (Finite 0) area_hectares
                           then fmul (fdiv loss_area area_hectares) (Finite 100)
                           else Finite 0),
                        detailed_report =
                          \<lparr> ndvi_change = ndvi,
                            vegetation_loss = detected,
                            analysis_method = ''NDVI comparison with M'' @ ''L enhancement'',
                            temporal_analysis =
                              \<lparr> historical_period = date historical_image,
                                current_period = date current_image,
                                time_span_days =
                                  calculate_time_span (date historical_image) (date current_image) \<rparr>,
                            risk_factors =
                              \<lparr> area_size = area_factor,
                                geographic_risk = location_factor,
                                cloud_coverage_impact =
                                  fdiv (py_max (Finite (get_default (cloud_coverage historical_image) 0))
                                               (Finite (get_default (cloud_coverage current_image) 0)))
                                       (Finite 100) \<rparr> \<rparr> \<rparr>,
                      g))"

section \<open>Change detection: \<^verbatim>\<open>analyze_change\<close>\<close>

record temporal_analysis =
  historical_period :: string
  current_period :: string
  time_span_days :: int

record risk_factors =
  area_size :: real
  geographic_risk :: real
  cloud_coverage_impact :: real

record detailed_report =
  ndvi_change :: real
  vegetation_loss :: bool
  analysis_method :: string
  temporal_analysis :: temporal_analysis
  risk_factors :: risk_factors

record change_result =
  deforestation_detected :: bool
  confidence_score :: real
  area_analyzed :: real
  forest_loss_area :: real
  change_percentage :: real
  detailed_report :: detailed_report


section \<open>Full report: \<^verbatim>\<open>full_analysis\<close>\<close>

text \<open>
  The recommendations are eight fixed French sentences, each with a pictograph in
  front. They are pairwise different, and the report only ever contains these, so each
  is a constructor, named after its sentence:
  \<^item> loss detected: immediate field verification recommended; EUDR compliance at risk,
    documentation required; urgent contact with the suppliers concerned; complementary
    audit of the supply chain;
  \<^item> no loss: zone compliant with the current EUDR requirements; continuous
    surveillance recommended (quarterly monitoring); documentation up to date and
    compliant;
  \<^item> appended for areas above 100 hectares: high-frequency satellite surveillance
    recommended.
\<close>

datatype recommendation =
    Verification_terrain_immediate
  | Conformite_EUDR_a_risque
  | Contact_urgent_fournisseurs
  | Audit_complementaire
  | Zone_conforme
  | Surveillance_continue
  | Documentation_a_jour
  | Surveillance_satellite_haute_frequence

record vegetation_indices =
  current_ndvi :: real
  historical_ndvi :: real
  ndvi_change :: real
  evi :: real

record land_cover_classification =
  forest_percentage :: real
  agricultural_percentage :: real
  other_percentage :: real
  water_percentage :: real

record risk_assessment =
  deforestation_risk :: string
  geographic_complexity :: real
  monitoring_priority :: string

record detailed_metrics =
  vegetation_indices :: vegetation_indices
  land_cover_classification :: land_cover_classification
  risk_assessment :: risk_assessment

record deforestation_report =
  area_analyzed :: real
  forest_loss_detected :: bool
  forest_loss_area :: real
  change_percentage :: real
  analysis_confidence :: real
  recommendations :: "recommendation list"
  detailed_metrics :: detailed_metrics

definition full_analysis :: "coordinates \<Rightarrow> rng \<Rightarrow> error + (deforestation_report \<times> rng)" where
  "full_analysis coordinates g =
     (let area_hectares = calculate_area coordinates
      in case get_location_risk_factor coordinates of
           Inl e \<Rightarrow> Inl e
         | Inr location_risk \<Rightarrow>
             let (loss_detected, g) =
                   (if location_risk > 0.5 then random_choice [True, False] g else (False, g));
                 (loss_area, g) =
                   (if loss_detected then
                      let (u, g) = random_uniform 0 0.3 g in (area_hectares * u, g)
                    else (0, g));
                 percentage = (if area_hectares > 0 then loss_area / area_hectares * 100 else 0);
                 confidence_factors =
                   [if area_hectares > 10 then 0.9 else 0.7, 0.95, 0.9 - (location_risk * 0.2)];
                 confidence = sum_list confidence_factors / real (length confidence_factors);
                 recs =
                   (if loss_detected then
                      [] @ [Verification_terrain_immediate, Conformite_EUDR_a_risque,
                            Contact_urgent_fournisseurs, Audit_complementaire]
                    else
                      [] @ [Zone_conforme, Surveillance_continue, Documentation_a_jour]);
                 recs =
                   (if area_hectares > 100 then recs @ [Surveillance_satellite_haute_frequence]
                    else recs);
                 (cur_ndvi, g) = random_uniform 0.3 0.8 g;
                 (hist_ndvi, g) = random_uniform 0.4 0.9 g;
                 (ndvi, g) = random_uniform (- 0.3) 0.1 g;
                 (evi_v, g) = random_uniform 0.2 0.7 g;
                 (forest_pct, g) =
                   (if \<not> loss_detected then random_uniform 60 90 g else random_uniform 40 70 g);
                 (agri_pct, g) = random_uniform 5 30 g;
                 (other_pct, g) = random_uniform 5 15 g;
                 (water_pct, g) = random_uniform 0 5 g
             in Inr (\<lparr> area_analyzed = area_hectares,
                        forest_loss_detected = loss_detected,
                        forest_loss_area = loss_area,
                        change_percentage = percentage,
                        analysis_confidence = confidence,
                        recommendations = recs,
                        detailed_metrics =
                          \<lparr> vegetation_indices =
                              \<lparr> current_ndvi = cur_ndvi,
                                historical_ndvi = hist_ndvi,
                                ndvi_change = ndvi,
                                evi = evi_v \<rparr>,
                            land_cover_classification =
                              \<lparr> forest_percentage = forest_pct,
                                agricultural_percentage = agri_pct,
                                other_percentage = other_pct,
                                water_percentage = water_pct \<rparr>,
                            risk_assessment =
                              \<lparr> deforestation_risk =
                                  (if location_risk > 0.7 then ''HIGH''
                                   else if location_risk > 0.4 then ''MEDIUM'' else ''LOW''),
                                geographic_complexity = location_risk,
                                monitoring_priority =
                                  (if loss_detected then ''URGENT'' else ''STANDARD'') \<rparr> \<rparr> \<rparr>,
                      g))"

section \<open>Sample inputs\<close>

text \<open>
  A generator whose every float draw is \<open>r\<close> and every index draw is \<open>i\<close>, and an image
  descriptor of the shape \<^verbatim>\<open>_get_demo_image\<close> returns, for evaluating the operations
  on concrete inputs.
\<close>

definition fixed_rng :: "real \<Rightarrow> nat \<Rightarrow> rng" where
  "fixed_rng r i = \<lparr> random_outcomes = (\<lambda>k. r), randbelow_outcomes = (\<lambda>k. i), calls = 0 \<rparr>"

definition sample_image :: "string \<Rightarrow> satellite_image" where
  "sample_image d =
     \<lparr> url = ''https://maps.googleapis.com/maps/api/staticmap'',
       date = d,
       cloud_coverage = Some 5,
       resolution = ''10m'',
       product_id = None \<rparr>"

text \<open>
  A longitude in the far range of the format: \<open>2 ^ 1023\<close>, in decimal about
  \<open>8.98846567431158e307\<close>, is a double, and its product with \<open>111320\<close> is beyond the
  largest double.
\<close>

definition huge_lon :: real where
  "huge_lon = 2 ^ 1023"

section \<open>Properties of the risk classifier in exact arithmetic\<close>

lemma risk_nonempty:
  "coordinates \<noteq> [] \<Longrightarrow> get_location_risk_factor coordinates =
     Inr (region_factor (sum_list (map lat coordinates) / real (length coordinates))
                        (sum_list (map lon coordinates) / real (length coordinates)))"
  by (simp add: get_location_risk_factor_def py_truediv_def)

lemma region_factor_values:
  "region_factor a b \<in> {0.8, 0.7, 0.6, 0.2, 0.4}"
  by (simp add: region_factor_def)


text \<open>
  C6: the claim is that \<^verbatim>\<open>_get_location_risk_factor\<close> returns a factor for every
  vertex list, the empty one included. On the empty list the code divides by
  \<^verbatim>\<open>len(coordinates) = 0\<close> and raises.
\<close>

theorem get_location_risk_factor_empty:
  "get_location_risk_factor [] = Inl ZeroDivisionError"
  by (simp add: get_location_risk_factor_def py_truediv_def)

section \<open>Properties of \<^verbatim>\<open>analyze_change\<close> in exact arithmetic\<close>





section \<open>Properties of \<^verbatim>\<open>full_analysis\<close>\<close>

lemma full_analysis_returns:
  assumes "get_location_risk_factor coordinates = Inr risk"
  shows "\<exists>rep g'. full_analysis coordinates g = Inr (rep, g')
     \<and> deforestation_report.area_analyzed rep = calculate_area coordinates
     \<and> (forest_loss_detected rep \<longrightarrow> risk > 0.5)
     \<and> (\<not> forest_loss_detected rep \<longrightarrow>
           deforestation_report.forest_loss_area rep = 0
           \<and> deforestation_report.change_percentage rep = 0)
     \<and> recommendations rep =
          (if forest_loss_detected rep
           then [Verification_terrain_immediate, Conformite_EUDR_a_risque,
                 Contact_urgent_fournisseurs, Audit_complementaire]
           else [Zone_conforme, Surveillance_continue, Documentation_a_jour])
          @ (if deforestation_report.area_analyzed rep > 100
             then [Surveillance_satellite_haute_frequence] else [])"
  unfolding full_analysis_def assms
  by (simp add: Let_def random_uniform_def random_choice_def split: prod.splits)

lemma full_analysis_empty: "full_analysis [] g = Inl ZeroDivisionError"
  by (simp add: full_analysis_def get_location_risk_factor_def py_truediv_def)

text \<open>
  C8: in \<^verbatim>\<open>full_analysis\<close>, \<^verbatim>\<open>forest_loss_detected\<close> can only be true when the location
  risk factor exceeds 0.5. For every polygon whose risk factor is at most 0.5 and every
  random draw it is false, and then \<^verbatim>\<open>forest_loss_area\<close> and \<^verbatim>\<open>change_percentage\<close>
  are 0.
\<close>

theorem full_analysis_low_risk_no_loss:
  assumes "get_location_risk_factor coordinates = Inr risk"
  shows "\<exists>rep g'. full_analysis coordinates g = Inr (rep, g')
     \<and> (forest_loss_detected rep \<longrightarrow> risk > 0.5)
     \<and> (risk \<le> 0.5 \<longrightarrow>
           \<not> forest_loss_detected rep
           \<and> deforestation_report.forest_loss_area rep = 0
           \<and> deforestation_report.change_percentage rep = 0)"
  using full_analysis_returns [OF assms, of g] by fastforce

theorem full_analysis_low_risk_no_loss_witness:
  "get_location_risk_factor [(2, 48), (3, 48), (3, 49)] = Inr 0.2 \<and> (0.2 :: real) \<le> 0.5
   \<and> (\<exists>rep g'. full_analysis [(2, 48), (3, 48), (3, 49)] (fixed_rng 0.5 0) = Inr (rep, g')
        \<and> \<not> forest_loss_detected rep
        \<and> deforestation_report.forest_loss_area rep = 0
        \<and> deforestation_report.change_percentage rep = 0)"
proof -
  have a: "get_location_risk_factor [(2, 48), (3, 48), (3, 49)] = Inr 0.2"
    by (simp add: get_location_risk_factor_def py_truediv_def lat_def lon_def region_factor_def)
  show ?thesis
    using full_analysis_low_risk_no_loss [OF a, of "fixed_rng 0.5 0"] a by auto
qed

text \<open>
  C9: \<^verbatim>\<open>full_analysis\<close> returns a report for every non-empty coordinate list, and
  for every coordinate list and random draw the recommendations of a returned report
  are the 4 fixed sentences of the loss branch or the 3 of the clear branch, followed
  by the high-frequency satellite surveillance sentence when the area exceeds 100
  hectares: at least 3 entries, and that sentence is in the list if and only if the
  analysed area exceeds 100 hectares.
\<close>

theorem full_analysis_recommendations:
  "(coordinates \<noteq> [] \<longrightarrow> (\<exists>rep g'. full_analysis coordinates g = Inr (rep, g')))
   \<and> (\<forall>rep g'. full_analysis coordinates g = Inr (rep, g') \<longrightarrow>
         3 \<le> length (recommendations rep)
         \<and> recommendations rep =
              (if forest_loss_detected rep
               then [Verification_terrain_immediate, Conformite_EUDR_a_risque,
                     Contact_urgent_fournisseurs, Audit_complementaire]
               else [Zone_conforme, Surveillance_continue, Documentation_a_jour])
              @ (if deforestation_report.area_analyzed rep > 100
                 then [Surveillance_satellite_haute_frequence] else [])
         \<and> (Surveillance_satellite_haute_frequence \<in> set (recommendations rep)
              \<longleftrightarrow> deforestation_report.area_analyzed rep > 100))"
proof (intro conjI impI allI)
  assume "coordinates \<noteq> []"
  then show "\<exists>rep g'. full_analysis coordinates g = Inr (rep, g')"
    using full_analysis_returns [OF risk_nonempty, of coordinates g] by blast
next
  fix rep g'
  assume r: "full_analysis coordinates g = Inr (rep, g')"
  have ne: "coordinates \<noteq> []"
    using r full_analysis_empty [of g] by auto
  from full_analysis_returns [OF risk_nonempty [OF ne], of g] r
  have recs: "recommendations rep =
              (if forest_loss_detected rep
               then [Verification_terrain_immediate, Conformite_EUDR_a_risque,
                     Contact_urgent_fournisseurs, Audit_complementaire]
               else [Zone_conforme, Surveillance_continue, Documentation_a_jour])
              @ (if deforestation_report.area_analyzed rep > 100
                 then [Surveillance_satellite_haute_frequence] else [])"
    by auto
  show "recommendations rep =
              (if forest_loss_detected rep
               then [Verification_terrain_immediate, Conformite_EUDR_a_risque,
                     Contact_urgent_fournisseurs, Audit_complementaire]
               else [Zone_conforme, Surveillance_continue, Documentation_a_jour])
              @ (if deforestation_report.area_analyzed rep > 100
                 then [Surveillance_satellite_haute_frequence] else [])"
    by (rule recs)
  show "3 \<le> length (recommendations rep)" unfolding recs by simp
  show "Surveillance_satellite_haute_frequence \<in> set (recommendations rep)
              \<longleftrightarrow> deforestation_report.area_analyzed rep > 100"
    unfolding recs by simp
qed

theorem full_analysis_recommendations_witness:
  "[(2 :: real, 48 :: real), (3, 48), (3, 49)] \<noteq> []
   \<and> (\<exists>rep g'. full_analysis [(2, 48), (3, 48), (3, 49)] (fixed_rng 0.5 0) = Inr (rep, g')
        \<and> 3 \<le> length (recommendations rep)
        \<and> (Surveillance_satellite_haute_frequence \<in> set (recommendations rep)
              \<longleftrightarrow> deforestation_report.area_analyzed rep > 100))"
  using full_analysis_recommendations [of "[(2, 48), (3, 48), (3, 49)]" "fixed_rng 0.5 0"]
  by auto

section \<open>The square plot of a hundredth of a degree\<close>

lemma upt4: "[0..<4] = [0, 1, 2, 3]"
  by (simp add: upt_rec)

lemma cos_lower: "1 - x\<^sup>2 / 2 \<le> cos (x :: real)"
proof -
  have "\<bar>sin (x / 2)\<bar> \<le> \<bar>x / 2\<bar>" by (rule abs_sin_x_le_abs_x)
  then have "(sin (x / 2))\<^sup>2 \<le> (x / 2)\<^sup>2" by (simp only: abs_le_square_iff)
  moreover have "cos x = 1 - 2 * (sin (x / 2))\<^sup>2"
    using cos_double_sin [of "x / 2"] by simp
  ultimately show ?thesis by (simp add: power2_eq_square)
qed

lemma square_area_formula:
  "calculate_area [(0, 0), (0, 0.01), (0.01, 0.01), (0.01, 0)]
     = max (\<bar>1113.2 * (1113.2 * cos (radians 0.01)) + 1113.2 * 1113.2\<bar> / 2 / 10000) 1"
  by (simp add: calculate_area_def shoelace_step_def deg_to_meters_def lat_def lon_def Let_def upt4
      radians_def)

lemma cos_hundredth_degree: "0.9999999 \<le> cos (radians 0.01) \<and> cos (radians 0.01) \<le> 1"
proof -
  have r0: "0 \<le> radians 0.01" by (simp add: radians_def)
  have "radians 0.01 \<le> 0.01 * 4 / 180"
    unfolding radians_def using pi_less_4 by simp
  then have r1: "radians 0.01 \<le> 0.0003" by simp
  have "(radians 0.01)\<^sup>2 \<le> 0.0003\<^sup>2"
    using r1 r0 by (rule power_mono)
  then have "1 - 0.0003\<^sup>2 / 2 \<le> 1 - (radians 0.01)\<^sup>2 / 2" by simp
  also have "\<dots> \<le> cos (radians 0.01)" by (rule cos_lower)
  finally have "1 - 0.0003\<^sup>2 / 2 \<le> cos (radians 0.01)" .
  then have "0.9999999 \<le> cos (radians 0.01)" by (simp add: power2_eq_square)
  then show ?thesis by simp
qed

lemma square_area_bounds:
  "123.92 < calculate_area [(0, 0), (0, 0.01), (0.01, 0.01), (0.01, 0)]
   \<and> calculate_area [(0, 0), (0, 0.01), (0.01, 0.01), (0.01, 0)] < 123.93"
proof -
  define c where "c = cos (radians 0.01)"
  have c: "0.9999999 \<le> c" "c \<le> 1" using cos_hundredth_degree unfolding c_def by blast+
  have "calculate_area [(0, 0), (0, 0.01), (0.01, 0.01), (0.01, 0)]
     = max (\<bar>1113.2 * (1113.2 * c) + 1113.2 * 1113.2\<bar> / 2 / 10000) 1"
    unfolding c_def by (rule square_area_formula)
  then show ?thesis using c by (simp add: max_def abs_if)
qed

text \<open>
  C4, as stated, fails: for the square with (lon, lat) vertices (0, 0), (0, 0.01),
  (0.01, 0.01), (0.01, 0) the claim expects roughly 1 to 1.5 hectares, but a hundredth
  of a degree is about 1113 metres and the computed area is far above 1.5 hectares.
\<close>

theorem square_plot_not_small:
  "\<not> calculate_area [(0, 0), (0, 0.01), (0.01, 0.01), (0.01, 0)] \<le> 1.5"
  using square_area_bounds by simp

text \<open>
  C4, amended: for that square \<^verbatim>\<open>_calculate_area\<close> returns about 123.92 hectares (a
  value between 123.92 and 123.93), and in any case at least 1.0.
\<close>

theorem square_plot_area:
  "123.92 < calculate_area [(0, 0), (0, 0.01), (0.01, 0.01), (0.01, 0)]
   \<and> calculate_area [(0, 0), (0, 0.01), (0.01, 0.01), (0.01, 0)] < 123.93
   \<and> 1 \<le> calculate_area [(0, 0), (0, 0.01), (0.01, 0.01), (0.01, 0)]"
  using square_area_bounds by simp


section \<open>Properties of double-precision rounding\<close>

lemma round_double_zero: "round_double 0 = 0"
  by (simp add: round_double_def)

lemma round_half_even_close: "\<bar>of_int (round_half_even z) - z\<bar> \<le> 1 / 2"
  unfolding round_half_even_def Let_def by (auto simp add: abs_if) linarith+

lemma round_half_even_nonneg: "0 \<le> z \<Longrightarrow> 0 \<le> round_half_even z"
  unfolding round_half_even_def Let_def by (auto simp add: abs_if)

lemma round_half_even_nonpos: "z \<le> 0 \<Longrightarrow> round_half_even z \<le> 0"
  unfolding round_half_even_def Let_def
  by (auto simp add: abs_if)

lemma ulp_le:
  assumes "x \<noteq> 0"
  shows "(2::real) powr of_int (ulp_exponent x) \<le> (\<bar>x\<bar> + 1) / 2 ^ 52"
proof (cases "\<lfloor>log 2 \<bar>x\<bar>\<rfloor> - 52 \<ge> - 1074")
  case True
  then have e: "ulp_exponent x = \<lfloor>log 2 \<bar>x\<bar>\<rfloor> - 52" by (simp add: ulp_exponent_def)
  have a: "(2::real) powr of_int (\<lfloor>log 2 \<bar>x\<bar>\<rfloor> - 52) = 2 powr of_int \<lfloor>log 2 \<bar>x\<bar>\<rfloor> / 2 ^ 52"
    by (simp add: powr_diff)
  have "(2::real) powr of_int \<lfloor>log 2 \<bar>x\<bar>\<rfloor> \<le> 2 powr (log 2 \<bar>x\<bar>)"
    by (rule powr_mono) simp_all
  also have "2 powr (log 2 \<bar>x\<bar>) = \<bar>x\<bar>" using assms by simp
  finally have "(2::real) powr of_int (\<lfloor>log 2 \<bar>x\<bar>\<rfloor> - 52) \<le> \<bar>x\<bar> / 2 ^ 52"
    unfolding a by (simp add: divide_right_mono)
  also have "\<dots> \<le> (\<bar>x\<bar> + 1) / 2 ^ 52" by (simp add: divide_right_mono)
  finally show ?thesis unfolding e .
next
  case False
  then have e: "ulp_exponent x = - 1074" by (simp add: ulp_exponent_def)
  have "(2::real) powr of_int (- 1074) \<le> 2 powr of_int (- 52)"
    by (rule powr_mono) simp_all
  also have "\<dots> = 1 / 2 ^ 52" by (simp add: powr_minus_divide)
  also have "\<dots> \<le> (\<bar>x\<bar> + 1) / 2 ^ 52" by (simp add: divide_right_mono)
  finally show ?thesis unfolding e .
qed

lemma round_double_error: "\<bar>round_double y - y\<bar> \<le> (\<bar>y\<bar> + 1) / 2 ^ 53"
proof (cases "y = 0")
  case True
  then show ?thesis by (simp add: round_double_def)
next
  case False
  define u :: real where "u = 2 powr of_int (ulp_exponent y)"
  have u0: "0 < u" unfolding u_def by simp
  have "round_double y - y = (of_int (round_half_even (y / u)) - y / u) * u"
    using False u0 by (simp add: round_double_def u_def field_simps)
  then have "\<bar>round_double y - y\<bar> = \<bar>of_int (round_half_even (y / u)) - y / u\<bar> * u"
    using u0 by (simp add: abs_mult)
  also have "\<dots> \<le> 1 / 2 * u"
    using round_half_even_close [of "y / u"] u0 by (simp add: mult_right_mono)
  also have "\<dots> \<le> 1 / 2 * ((\<bar>y\<bar> + 1) / 2 ^ 52)"
    using ulp_le [OF False] unfolding u_def by simp
  also have "\<dots> = (\<bar>y\<bar> + 1) / 2 ^ 53" by simp
  finally show ?thesis .
qed

lemma round_double_nonneg: "0 \<le> y \<Longrightarrow> 0 \<le> round_double y"
  unfolding round_double_def
  by (auto intro!: mult_nonneg_nonneg round_half_even_nonneg simp add: divide_nonneg_pos)

lemma round_double_eval:
  assumes "2 powr of_int k \<le> \<bar>x\<bar>" "\<bar>x\<bar> < 2 powr (of_int k + 1)" "- 1022 \<le> k"
  shows "round_double x = of_int (round_half_even (x / 2 powr of_int (k - 52))) * 2 powr of_int (k - 52)"
proof -
  have x0: "x \<noteq> 0" using assms(1) by (auto simp add: not_le [symmetric] intro: order_trans)
  have "0 < \<bar>x\<bar>" using x0 by simp
  then have "\<lfloor>log 2 \<bar>x\<bar>\<rfloor> = k"
    using assms(1,2) by (subst floor_log_eq_powr_iff) simp_all
  then have "ulp_exponent x = k - 52" using assms(3) by (simp add: ulp_exponent_def)
  then show ?thesis using x0 by (simp add: round_double_def)
qed

lemma round_double_one: "round_double 1 = 1"
  by (subst round_double_eval [where k = 0])
     (simp_all add: powr_minus_divide round_half_even_def Let_def)

lemma threshold_pos: "0 < overflow_threshold"
  by (simp add: overflow_threshold_def)

lemma fl_zero: "fl 0 = Finite 0"
  using threshold_pos by (simp add: fl_def round_double_zero)

lemma fl_overflow: "overflow_threshold \<le> x \<Longrightarrow> fl x = PosInf"
  by (simp add: fl_def)

section \<open>The area in double precision\<close>

lemma py_max_one: "py_max x (Finite 1) = NaN \<or> fle (Finite 1) (py_max x (Finite 1))"
  by (cases x) (simp_all add: py_max_def)

lemma calculate_area_fp_short: "length coordinates < 3 \<Longrightarrow> calculate_area_fp coordinates = Finite 0"
  by (simp add: calculate_area_fp_def)

lemma calculate_area_fp_floor:
  "3 \<le> length coordinates \<Longrightarrow>
     calculate_area_fp coordinates = NaN \<or> fle (Finite 1) (calculate_area_fp coordinates)"
  using py_max_one by (simp add: calculate_area_fp_def Let_def)

lemma upt3: "[0..<3] = [0, 1, 2]"
  by (simp add: upt_rec)

lemma meters_huge_lon: "deg_to_meters_fp 0 huge_lon = (Finite 0, PosInf)"
proof -
  have "overflow_threshold \<le> huge_lon * 111320"
    by (simp add: overflow_threshold_def huge_lon_def)
  then have a: "fl (huge_lon * 111320) = PosInf" by (rule fl_overflow)
  show ?thesis
    by (simp add: deg_to_meters_fp_def Let_def a fl_zero radians_fp_def cos_fp_def
        round_double_zero round_double_one)
qed

lemma area_huge_lon:
  "calculate_area_fp [(huge_lon, 0), (huge_lon, 0), (huge_lon, 0)] = NaN"
  by (simp add: calculate_area_fp_def Let_def upt3 shoelace_step_fp_def lat_def lon_def
      meters_huge_lon fsub_def py_max_def)

text \<open>
  C2: the claim is that \<^verbatim>\<open>_calculate_area\<close> returns a value of at least 1.0 for every
  polygon with 3 or more vertices. With three vertices at longitude \<open>2 ^ 1023\<close> on the
  equator the products with \<open>111320\<close> overflow, the shoelace terms are \<open>0 * inf\<close>,
  and \<^verbatim>\<open>max(nan, 1.0)\<close> keeps the NaN: the result is not a number.
\<close>

theorem calculate_area_fp_overflow:
  "calculate_area_fp [(huge_lon, 0), (huge_lon, 0), (huge_lon, 0)] = NaN"
  by (rule area_huge_lon)

section \<open>\<^verbatim>\<open>analyze_change\<close> in double precision\<close>

lemma threshold_gt_two: "2 < overflow_threshold"
  by (simp add: overflow_threshold_def)

lemma fl_small:
  assumes "0 \<le> x" "x \<le> 2"
  shows "\<exists>r. fl x = Finite r \<and> 0 \<le> r \<and> r \<le> x + 1 / 1000"
proof -
  have f: "fl x = Finite (round_double x)"
    using assms threshold_gt_two by (simp add: fl_def)
  have "\<bar>round_double x - x\<bar> \<le> (\<bar>x\<bar> + 1) / 2 ^ 53" by (rule round_double_error)
  also have "\<dots> \<le> 3 / 2 ^ 53" using assms by (simp add: divide_right_mono)
  also have "\<dots> \<le> 1 / 1000" by simp
  finally have "round_double x \<le> x + 1 / 1000" by linarith
  then show ?thesis using f round_double_nonneg [OF assms(1)] by simp
qed

lemma lit_small:
  assumes "0 \<le> q" "q \<le> 1"
  shows "\<exists>r. fl_lit q = Finite r \<and> q - 1 / 1000 \<le> r \<and> r \<le> q + 1 / 1000"
proof -
  have "\<bar>round_double q - q\<bar> \<le> (\<bar>q\<bar> + 1) / 2 ^ 53" by (rule round_double_error)
  also have "\<dots> \<le> 2 / 2 ^ 53" using assms by (simp add: divide_right_mono)
  also have "\<dots> \<le> 1 / 1000" by simp
  finally have "q - 1 / 1000 \<le> round_double q \<and> round_double q \<le> q + 1 / 1000" by linarith
  then show ?thesis by (simp add: fl_lit_def)
qed

lemma area_factor_cases:
  assumes "A = NaN \<or> A = Finite 0 \<or> fle (Finite 1) A"
  shows "(A = NaN \<and> py_min (fdiv A (Finite 100)) (Finite 1) = NaN)
         \<or> (A \<noteq> NaN \<and> (\<exists>w. py_min (fdiv A (Finite 100)) (Finite 1) = Finite w \<and> 0 \<le> w \<and> w \<le> 1))"
proof (cases A)
  case (Finite a)
  with assms have a0: "0 \<le> a" by auto
  then have "0 \<le> a / 100" by simp
  then have "fl (a / 100) = PosInf \<or> (\<exists>r. fl (a / 100) = Finite r \<and> 0 \<le> r)"
    using round_double_nonneg [of "a / 100"] threshold_pos by (auto simp add: fl_def)
  then show ?thesis using Finite by (auto simp add: py_min_def)
next
  case PosInf
  then show ?thesis by (simp add: py_min_def)
next
  case NegInf
  with assms show ?thesis by simp
next
  case NaN
  then show ?thesis by (simp add: py_min_def)
qed

lemma factor_literal:
  assumes "lf \<in> {fl_lit 0.8, fl_lit 0.7, fl_lit 0.6, fl_lit 0.2, fl_lit 0.4}"
  shows "\<exists>l. lf = Finite l \<and> 0.199 \<le> l \<and> l \<le> 0.801"
proof -
  from assms consider "lf = fl_lit 0.8" | "lf = fl_lit 0.7" | "lf = fl_lit 0.6"
    | "lf = fl_lit 0.2" | "lf = fl_lit 0.4" by auto
  then show ?thesis
  proof cases
    case 1 then show ?thesis using lit_small [of "0.8"] by auto
  next
    case 2 then show ?thesis using lit_small [of "0.7"] by auto
  next
    case 3 then show ?thesis using lit_small [of "0.6"] by auto
  next
    case 4 then show ?thesis using lit_small [of "0.2"] by auto
  next
    case 5 then show ?thesis using lit_small [of "0.4"] by auto
  qed
qed

lemma clamp_probability:
  assumes A: "A = NaN \<or> A = Finite 0 \<or> fle (Finite 1) A"
    and L: "lf \<in> {fl_lit 0.8, fl_lit 0.7, fl_lit 0.6, fl_lit 0.2, fl_lit 0.4}"
    and p: "p = py_min (py_max (fdiv (fmul (fl_lit 0.3)
                 (fadd (py_min (fdiv A (Finite 100)) (Finite 1)) lf)) (Finite 2)) (fl_lit 0.1)) (fl_lit 0.9)"
  shows "\<not> flt (fl_lit 0.5) p"
    and "A = NaN \<Longrightarrow> p = NaN"
    and "A \<noteq> NaN \<Longrightarrow> fle (fl_lit 0.1) p \<and> fle p (fl_lit 0.9)"
proof -
  obtain l where l: "lf = Finite l" "0.199 \<le> l" "l \<le> 0.801"
    using factor_literal [OF L] by blast
  obtain c1 where c1: "fl_lit 0.1 = Finite c1" "0.099 \<le> c1" "c1 \<le> 0.101"
    using lit_small [of "0.1"] by auto
  obtain c9 where c9: "fl_lit 0.9 = Finite c9" "0.899 \<le> c9"
    using lit_small [of "0.9"] by auto
  obtain c5 where c5: "fl_lit 0.5 = Finite c5" "0.499 \<le> c5"
    using lit_small [of "0.5"] by auto
  obtain c3 where c3: "fl_lit 0.3 = Finite c3" "0 \<le> c3" "c3 \<le> 0.301"
    using lit_small [of "0.3"] by auto
  have nan: "p = NaN" if "A = NaN"
    using that unfolding p by (simp add: py_min_def py_max_def l c1 c9 c3)
  have fin: "\<exists>q. p = Finite q \<and> c1 \<le> q \<and> q \<le> 0.3" if "A \<noteq> NaN"
  proof -
    from area_factor_cases [OF A] that
    obtain w where w: "py_min (fdiv A (Finite 100)) (Finite 1) = Finite w" "0 \<le> w" "w \<le> 1"
      by blast
    have "0 \<le> w + l" "w + l \<le> 2" using w l by simp_all
    from fl_small [OF this] obtain s where s: "fl (w + l) = Finite s" "0 \<le> s" "s \<le> w + l + 1 / 1000"
      by blast
    have s2: "s \<le> 1.802" using s w l by simp
    have "c3 * s \<le> 0.301 * 1.802" using c3 s s2 by (intro mult_mono) simp_all
    then have cs: "0 \<le> c3 * s" "c3 * s \<le> 2" using c3 s by simp_all
    from fl_small [OF this] obtain m where m: "fl (c3 * s) = Finite m" "0 \<le> m" "m \<le> c3 * s + 1 / 1000"
      by blast
    have m2: "m \<le> 0.544" using m \<open>c3 * s \<le> 0.301 * 1.802\<close> by simp
    have "0 \<le> m / 2" "m / 2 \<le> 2" using m m2 by simp_all
    from fl_small [OF this] obtain h where h: "fl (m / 2) = Finite h" "0 \<le> h" "h \<le> m / 2 + 1 / 1000"
      by blast
    have h2: "h \<le> 0.273" using h m2 by simp
    have "p = py_min (py_max (Finite h) (Finite c1)) (Finite c9)"
      unfolding p w l c3 c1 c9 by (simp add: s m h)
    then show ?thesis using h2 c1 c9 by (auto simp add: py_min_def py_max_def)
  qed
  show "\<not> flt (fl_lit 0.5) p"
  proof (cases "A = NaN")
    case True
    then show ?thesis using nan c5 by simp
  next
    case False
    from fin [OF this] obtain q where "p = Finite q" "q \<le> 0.3" by blast
    then show ?thesis using c5 by simp
  qed
  show "A = NaN \<Longrightarrow> p = NaN" by (rule nan)
  show "A \<noteq> NaN \<Longrightarrow> fle (fl_lit 0.1) p \<and> fle p (fl_lit 0.9)"
  proof -
    assume "A \<noteq> NaN"
    from fin [OF this] obtain q where "p = Finite q" "c1 \<le> q" "q \<le> 0.3" by blast
    then show ?thesis using c1 c9 by simp
  qed
qed

lemma center_fp_nonempty:
  "xs \<noteq> [] \<Longrightarrow> center_fp xs = Inr (fdiv (float_sum xs) (Finite (real (length xs))))"
  by (simp add: center_fp_def float_truediv_def)

lemma region_factor_fp_values:
  "region_factor_fp a b \<in> {fl_lit 0.8, fl_lit 0.7, fl_lit 0.6, fl_lit 0.2, fl_lit 0.4}"
  by (simp add: region_factor_fp_def)

lemma risk_fp_nonempty:
  assumes "coordinates \<noteq> []"
  shows "get_location_risk_factor_fp coordinates =
           Inr (region_factor_fp
                  (fdiv (float_sum (map lat coordinates)) (Finite (real (length coordinates))))
                  (fdiv (float_sum (map lon coordinates)) (Finite (real (length coordinates)))))"
  using assms by (simp add: get_location_risk_factor_fp_def center_fp_nonempty)

lemma risk_fp_empty: "get_location_risk_factor_fp [] = Inl ZeroDivisionError"
  by (simp add: get_location_risk_factor_fp_def center_fp_def float_truediv_def float_sum_def)

lemma analyze_change_fp_returns:
  assumes "get_location_risk_factor_fp coordinates = Inr lf"
  shows "\<exists>r g'. analyze_change_fp h c coordinates g = Inr (r, g')
     \<and> fp_change_result.area_analyzed r = calculate_area_fp coordinates
     \<and> fp_change_result.confidence_score r =
          py_min (py_max (fdiv (fmul (fl_lit 0.3)
             (fadd (py_min (fdiv (calculate_area_fp coordinates) (Finite 100)) (Finite 1)) lf))
             (Finite 2)) (fl_lit 0.1)) (fl_lit 0.9)
     \<and> fp_change_result.deforestation_detected r
          = flt (fl_lit 0.5) (fp_change_result.confidence_score r)
     \<and> (\<not> fp_change_result.deforestation_detected r \<longrightarrow>
           fp_change_result.forest_loss_area r = Finite 0
           \<and> fp_change_result.change_percentage r =
               (if flt (Finite 0) (calculate_area_fp coordinates)
                then fmul (fdiv (Finite 0) (calculate_area_fp coordinates)) (Finite 100)
                else Finite 0))"
  unfolding analyze_change_fp_def assms
  by (simp add: Let_def random_uniform_fp_def split: prod.splits)

lemma area_fp_cases:
  "calculate_area_fp coordinates = NaN \<or> calculate_area_fp coordinates = Finite 0
   \<or> fle (Finite 1) (calculate_area_fp coordinates)"
  using calculate_area_fp_short [of coordinates] calculate_area_fp_floor [of coordinates]
  by (cases "length coordinates < 3") auto

lemma zero_percentage:
  assumes "A = NaN \<or> A = Finite 0 \<or> fle (Finite 1) A"
  shows "(if flt (Finite 0) A then fmul (fdiv (Finite 0) A) (Finite 100) else Finite 0) = Finite 0"
  using assms by (cases A) (auto simp add: fl_zero)

lemma analyze_change_fp_facts:
  assumes "coordinates \<noteq> []"
  shows "\<exists>r g'. analyze_change_fp h c coordinates g = Inr (r, g')
     \<and> fp_change_result.area_analyzed r = calculate_area_fp coordinates
     \<and> \<not> fp_change_result.deforestation_detected r
     \<and> fp_change_result.forest_loss_area r = Finite 0
     \<and> fp_change_result.change_percentage r = Finite 0
     \<and> (calculate_area_fp coordinates = NaN \<longrightarrow> fp_change_result.confidence_score r = NaN)
     \<and> (calculate_area_fp coordinates \<noteq> NaN \<longrightarrow>
           fle (fl_lit 0.1) (fp_change_result.confidence_score r)
           \<and> fle (fp_change_result.confidence_score r) (fl_lit 0.9))"
proof -
  define lf where "lf = region_factor_fp
                  (fdiv (float_sum (map lat coordinates)) (Finite (real (length coordinates))))
                  (fdiv (float_sum (map lon coordinates)) (Finite (real (length coordinates))))"
  have rk: "get_location_risk_factor_fp coordinates = Inr lf"
    unfolding lf_def by (rule risk_fp_nonempty [OF assms])
  have L: "lf \<in> {fl_lit 0.8, fl_lit 0.7, fl_lit 0.6, fl_lit 0.2, fl_lit 0.4}"
    unfolding lf_def by (rule region_factor_fp_values)
  obtain r g' where r: "analyze_change_fp h c coordinates g = Inr (r, g')"
    and ar: "fp_change_result.area_analyzed r = calculate_area_fp coordinates"
    and cs: "fp_change_result.confidence_score r =
          py_min (py_max (fdiv (fmul (fl_lit 0.3)
             (fadd (py_min (fdiv (calculate_area_fp coordinates) (Finite 100)) (Finite 1)) lf))
             (Finite 2)) (fl_lit 0.1)) (fl_lit 0.9)"
    and dd: "fp_change_result.deforestation_detected r
          = flt (fl_lit 0.5) (fp_change_result.confidence_score r)"
    and nl: "\<not> fp_change_result.deforestation_detected r \<longrightarrow>
           fp_change_result.forest_loss_area r = Finite 0
           \<and> fp_change_result.change_percentage r =
               (if flt (Finite 0) (calculate_area_fp coordinates)
                then fmul (fdiv (Finite 0) (calculate_area_fp coordinates)) (Finite 100)
                else Finite 0)"
    using analyze_change_fp_returns [OF rk, of h c g] by blast
  note cp = clamp_probability [OF area_fp_cases [of coordinates] L cs]
  have nd: "\<not> fp_change_result.deforestation_detected r" unfolding dd by (rule cp(1))
  have la: "fp_change_result.forest_loss_area r = Finite 0" using nl nd by blast
  have pc: "fp_change_result.change_percentage r = Finite 0"
    using nl nd zero_percentage [OF area_fp_cases [of coordinates]] by simp
  show ?thesis using r ar nd la pc cp(2) cp(3) by blast
qed

text \<open>
  C5: the claim is that the \<^verbatim>\<open>confidence_score\<close> of \<^verbatim>\<open>analyze_change\<close> lies in
  [0.1, 0.9] for every coordinate list with at least 3 vertices. At the three vertices
  whose area is NaN the clamp \<^verbatim>\<open>min(max(p, 0.1), 0.9)\<close> keeps the NaN, and the
  returned \<^verbatim>\<open>confidence_score\<close> is NaN.
\<close>

theorem analyze_change_fp_confidence_overflow:
  "map_sum id (fp_change_result.confidence_score \<circ> fst)
     (analyze_change_fp (sample_image ''2020-01-01'') (sample_image ''2024-01-01'')
        [(huge_lon, 0), (huge_lon, 0), (huge_lon, 0)] (fixed_rng 0 0)) = Inr NaN"
proof -
  have ne: "[(huge_lon, 0 :: real), (huge_lon, 0), (huge_lon, 0)] \<noteq> []" by simp
  from analyze_change_fp_facts [OF ne] area_huge_lon
  obtain r g' where "analyze_change_fp (sample_image ''2020-01-01'') (sample_image ''2024-01-01'')
        [(huge_lon, 0), (huge_lon, 0), (huge_lon, 0)] (fixed_rng 0 0) = Inr (r, g')"
    and "fp_change_result.confidence_score r = NaN"
    by blast
  then show ?thesis by simp
qed

text \<open>
  C3, as stated, fails: the claim gives \<^verbatim>\<open>area_analyzed\<close> at least 1.0 for any
  coordinate list, but for a list of two vertices \<^verbatim>\<open>_calculate_area\<close> returns 0 and
  \<^verbatim>\<open>analyze_change\<close> reports that value.
\<close>

theorem analyze_change_fp_area_below_floor:
  "map_sum id (fp_change_result.area_analyzed \<circ> fst)
     (analyze_change_fp (sample_image ''2020-01-01'') (sample_image ''2024-01-01'')
        [(0, 0), (1, 1)] (fixed_rng 0 0)) = Inr (Finite 0)"
proof -
  have ne: "[(0 :: real, 0 :: real), (1, 1)] \<noteq> []" by simp
  from analyze_change_fp_facts [OF ne]
  obtain r g' where "analyze_change_fp (sample_image ''2020-01-01'') (sample_image ''2024-01-01'')
        [(0, 0), (1, 1)] (fixed_rng 0 0) = Inr (r, g')"
    and "fp_change_result.area_analyzed r = calculate_area_fp [(0, 0), (1, 1)]"
    by blast
  then show ?thesis by (simp add: calculate_area_fp_def)
qed

text \<open>
  C3, amended: \<^verbatim>\<open>analyze_change\<close> produces a result for every non-empty coordinate
  list. In every result it produces, \<^verbatim>\<open>area_analyzed\<close> is at least 1.0 when the list
  has at least 3 vertices and the computed area is a number, and 0 when the list has
  fewer than 3 vertices; for any coordinate list and any random draw
  \<^verbatim>\<open>forest_loss_area\<close> is 0 and \<^verbatim>\<open>change_percentage\<close> is 0, so it lies in [0, 100] and
  does not exceed 40.
\<close>

theorem analyze_change_fp_invariants:
  "(coordinates \<noteq> [] \<longrightarrow> (\<exists>r g'. analyze_change_fp h c coordinates g = Inr (r, g')))
   \<and> (\<forall>r g'. analyze_change_fp h c coordinates g = Inr (r, g') \<longrightarrow>
         (3 \<le> length coordinates \<and> fp_change_result.area_analyzed r \<noteq> NaN \<longrightarrow>
            fle (Finite 1) (fp_change_result.area_analyzed r))
         \<and> (length coordinates < 3 \<longrightarrow> fp_change_result.area_analyzed r = Finite 0)
         \<and> fp_change_result.forest_loss_area r = Finite 0
         \<and> fp_change_result.change_percentage r = Finite 0
         \<and> fle (Finite 0) (fp_change_result.change_percentage r)
         \<and> fle (fp_change_result.change_percentage r) (Finite 100)
         \<and> fle (fp_change_result.change_percentage r) (Finite 40))"
proof (intro conjI impI allI)
  assume "coordinates \<noteq> []"
  then show "\<exists>r g'. analyze_change_fp h c coordinates g = Inr (r, g')"
    using analyze_change_fp_facts [of coordinates h c g] by blast
next
  fix r g'
  assume r: "analyze_change_fp h c coordinates g = Inr (r, g')"
  have ne: "coordinates \<noteq> []"
  proof
    assume "coordinates = []"
    then have "analyze_change_fp h c coordinates g = Inl ZeroDivisionError"
      by (simp add: analyze_change_fp_def risk_fp_empty)
    with r show False by simp
  qed
  from analyze_change_fp_facts [OF ne, of h c g] r
  have ar: "fp_change_result.area_analyzed r = calculate_area_fp coordinates"
    and fl: "fp_change_result.forest_loss_area r = Finite 0"
    and cp: "fp_change_result.change_percentage r = Finite 0"
    by auto
  show "fle (Finite 1) (fp_change_result.area_analyzed r)"
    if "3 \<le> length coordinates \<and> fp_change_result.area_analyzed r \<noteq> NaN"
    using that calculate_area_fp_floor [of coordinates] unfolding ar by blast
  show "length coordinates < 3 \<Longrightarrow> fp_change_result.area_analyzed r = Finite 0"
    unfolding ar by (rule calculate_area_fp_short)
  show "fp_change_result.forest_loss_area r = Finite 0" by (rule fl)
  show "fp_change_result.change_percentage r = Finite 0" by (rule cp)
  show "fle (Finite 0) (fp_change_result.change_percentage r)"
    "fle (fp_change_result.change_percentage r) (Finite 100)"
    "fle (fp_change_result.change_percentage r) (Finite 40)" unfolding cp by simp_all
qed

lemma fl_finite: "\<bar>x\<bar> < overflow_threshold \<Longrightarrow> fl x = Finite (round_double x)"
  by (auto simp add: fl_def)

lemma rd_111320: "round_double 111320 = 111320"
  by (subst round_double_eval [where k = 16])
     (simp_all add: powr_minus_divide round_half_even_def Let_def)

lemma rd_square: "round_double 12392142400 = 12392142400"
  by (subst round_double_eval [where k = 33])
     (simp_all add: powr_minus_divide round_half_even_def Let_def)

lemma rd_half_square: "round_double 6196071200 = 6196071200"
  by (subst round_double_eval [where k = 32])
     (simp_all add: powr_minus_divide round_half_even_def Let_def)

lemma fl_111320: "fl 111320 = Finite 111320"
  by (simp add: fl_finite overflow_threshold_def rd_111320)

lemma fl_square: "fl 12392142400 = Finite 12392142400"
  by (simp add: fl_finite overflow_threshold_def rd_square)

lemma fl_half_square: "fl 6196071200 = Finite 6196071200"
  by (simp add: fl_finite overflow_threshold_def rd_half_square)

lemma triangle_area_is_number: "calculate_area_fp [(0, 0), (0, 1), (1, 0)] \<noteq> NaN"
proof -
  have m0: "deg_to_meters_fp 0 0 = (Finite 0, Finite 0)"
    by (simp add: deg_to_meters_fp_def Let_def fl_zero)
  have m1: "deg_to_meters_fp 1 0 = (Finite 111320, Finite 0)"
    by (simp add: deg_to_meters_fp_def Let_def fl_zero fl_111320)
  have m2: "deg_to_meters_fp 0 1 = (Finite 0, Finite 111320)"
    by (simp add: deg_to_meters_fp_def Let_def fl_zero fl_111320 radians_fp_def cos_fp_def
        round_double_zero round_double_one)
  have "calculate_area_fp [(0, 0), (0, 1), (1, 0)]
               = py_max (fl (6196071200 / 10000)) (Finite 1)"
    by (simp add: calculate_area_fp_def Let_def upt3 shoelace_step_fp_def lat_def lon_def
        m0 m1 m2 fsub_def fl_zero fl_square fl_half_square)
  moreover have "fl (6196071200 / 10000) = Finite (round_double (6196071200 / 10000))"
    by (rule fl_finite) (simp add: overflow_threshold_def)
  ultimately show ?thesis by (simp add: py_max_def)
qed

theorem analyze_change_fp_invariants_witness:
  "[(0 :: real, 0 :: real), (0, 1), (1, 0)] \<noteq> []
   \<and> 3 \<le> length [(0 :: real, 0 :: real), (0, 1), (1, 0)]
   \<and> (\<exists>r g'. analyze_change_fp (sample_image ''2020-01-01'') (sample_image ''2024-01-01'')
                [(0, 0), (0, 1), (1, 0)] (fixed_rng 0 0) = Inr (r, g')
        \<and> fp_change_result.area_analyzed r \<noteq> NaN
        \<and> fle (Finite 1) (fp_change_result.area_analyzed r)
        \<and> fle (fp_change_result.change_percentage r) (Finite 40))
   \<and> length [(0 :: real, 0 :: real), (1, 1)] < 3
   \<and> (\<exists>r g'. analyze_change_fp (sample_image ''2020-01-01'') (sample_image ''2024-01-01'')
                [(0, 0), (1, 1)] (fixed_rng 0 0) = Inr (r, g')
        \<and> fp_change_result.area_analyzed r = Finite 0)"
proof -
  obtain r g' where r: "analyze_change_fp (sample_image ''2020-01-01'') (sample_image ''2024-01-01'')
                [(0, 0), (0, 1), (1, 0)] (fixed_rng 0 0) = Inr (r, g')"
    using analyze_change_fp_invariants [of "[(0, 0), (0, 1), (1, 0)]"
          "sample_image ''2020-01-01''" "sample_image ''2024-01-01''" "fixed_rng 0 0"]
    by auto
  have ar: "fp_change_result.area_analyzed r = calculate_area_fp [(0, 0), (0, 1), (1, 0)]"
    using r by (auto simp add: analyze_change_fp_def Let_def split: sum.splits prod.splits)
  have nn: "fp_change_result.area_analyzed r \<noteq> NaN"
    unfolding ar by (rule triangle_area_is_number)
  have a: "fle (Finite 1) (fp_change_result.area_analyzed r)
           \<and> fle (fp_change_result.change_percentage r) (Finite 40)"
    using analyze_change_fp_invariants [of "[(0, 0), (0, 1), (1, 0)]"
          "sample_image ''2020-01-01''" "sample_image ''2024-01-01''" "fixed_rng 0 0"] r nn
    by auto
  have b: "\<exists>r g'. analyze_change_fp (sample_image ''2020-01-01'') (sample_image ''2024-01-01'')
                [(0, 0), (1, 1)] (fixed_rng 0 0) = Inr (r, g')
        \<and> fp_change_result.area_analyzed r = Finite 0"
    using analyze_change_fp_invariants [of "[(0, 0), (1, 1)]"
          "sample_image ''2020-01-01''" "sample_image ''2024-01-01''" "fixed_rng 0 0"]
    by auto
  show ?thesis using r nn a b by auto
qed

section \<open>The risk classifier in double precision\<close>




















section \<open>Properties of the time span\<close>

lemma digit_char_digit:
  assumes "0 \<le> v" "v \<le> 9"
  shows "is_digit (digit_char v)" and "digit_value (digit_char v) = v"
proof -
  from assms have "v \<in> {0, 1, 2, 3, 4} \<or> v \<in> {5, 6, 7, 8, 9}"
    by (simp; arith)
  then show "is_digit (digit_char v)" and "digit_value (digit_char v) = v"
    by (auto simp add: is_digit_def digit_value_def digit_char_def)
qed

lemma directive_Y_digits:
  assumes "0 \<le> year" "year \<le> 9999"
  shows "directive_Y (digit_char (year div 1000) # digit_char (year div 100 mod 10)
           # digit_char (year div 10 mod 10) # digit_char (year mod 10) # rest) = [(year, rest)]"
proof -
  have a: "0 \<le> year div 1000" "year div 1000 \<le> 9" using assms by simp_all
  have b: "0 \<le> year div 100 mod 10" "year div 100 mod 10 \<le> 9" by simp_all
  have c: "0 \<le> year div 10 mod 10" "year div 10 mod 10 \<le> 9" by simp_all
  have d: "0 \<le> year mod 10" "year mod 10 \<le> 9" by simp_all
  have e1: "year mod 100 = 10 * (year div 10 mod 10) + year mod 10"
    using zmod_zmult2_eq [of 10 year 10] by simp
  have e2: "year mod 1000 = 100 * (year div 100 mod 10) + year mod 100"
    using zmod_zmult2_eq [of 10 year 100] by simp
  have e3: "year = 1000 * (year div 1000) + year mod 1000"
    by simp
  have e: "1000 * (year div 1000) + 100 * (year div 100 mod 10) + 10 * (year div 10 mod 10)
             + year mod 10 = year"
    using e1 e2 e3 by linarith
  show ?thesis
    unfolding directive_Y_def
    by (simp add: digit_char_digit [OF a] digit_char_digit [OF b] digit_char_digit [OF c]
        digit_char_digit [OF d] e)
qed

lemma month_cases:
  assumes "1 \<le> month" "month \<le> 12"
  shows "month = 1 \<or> month = 2 \<or> month = 3 \<or> month = 4 \<or> month = 5 \<or> month = 6
         \<or> month = 7 \<or> month = 8 \<or> month = 9 \<or> month = 10 \<or> month = 11 \<or> month = (12 :: int)"
  using assms by arith

lemma day_cases:
  assumes "1 \<le> day" "day \<le> 31"
  shows "day = 1 \<or> day = 2 \<or> day = 3 \<or> day = 4 \<or> day = 5 \<or> day = 6 \<or> day = 7
         \<or> day = 8 \<or> day = 9 \<or> day = 10 \<or> day = 11 \<or> day = 12 \<or> day = 13 \<or> day = 14
         \<or> day = 15 \<or> day = 16 \<or> day = 17 \<or> day = 18 \<or> day = 19 \<or> day = 20 \<or> day = 21
         \<or> day = 22 \<or> day = 23 \<or> day = 24 \<or> day = 25 \<or> day = 26 \<or> day = 27 \<or> day = 28
         \<or> day = 29 \<or> day = 30 \<or> day = (31 :: int)"
  using assms by arith

lemma directive_m_digits:
  assumes "1 \<le> month" "month \<le> 12"
  shows "\<exists>more. directive_m (digit_char (month div 10) # digit_char (month mod 10) # rest)
           = (month, rest) # more"
  using month_cases [OF assms]
  by (elim disjE)
     (simp_all add: directive_m_def two_chars_def one_char_def in_range_def digit_char_def
        digit_value_def)

lemma directive_d_digits:
  assumes "1 \<le> day" "day \<le> 31"
  shows "\<exists>more. directive_d (digit_char (day div 10) # digit_char (day mod 10) # rest)
           = (day, rest) # more"
  using day_cases [OF assms]
  by (elim disjE)
     (simp_all add: directive_d_def two_chars_def one_char_def in_range_def digit_char_def
        digit_value_def is_digit_def literal_def)

lemma days_in_month_le:
  assumes "1 \<le> month" "month \<le> 12"
  shows "days_in_month year month \<le> 31"
  using month_cases [OF assms]
  by (elim disjE) (simp_all add: days_in_month_def)

lemma strptime_isoformat:
  assumes "valid_date dt"
  shows "strptime (isoformat dt) = Inr dt"
proof -
  obtain year month day where dt: "dt = (year, month, day)" by (cases dt) auto
  from assms have y: "0 \<le> year" "year \<le> 9999" and m: "1 \<le> month" "month \<le> 12"
    and d1: "1 \<le> day" and d2: "day \<le> days_in_month year month"
    unfolding dt valid_date_def by simp_all
  from d2 days_in_month_le [OF m, of year] have d3: "day \<le> 31" by simp
  obtain more_m where mm: "directive_m (digit_char (month div 10) # digit_char (month mod 10)
       # CHR ''-'' # [digit_char (day div 10), digit_char (day mod 10)])
       = (month, CHR ''-'' # [digit_char (day div 10), digit_char (day mod 10)]) # more_m"
    using directive_m_digits [OF m] by blast
  obtain more_d where dd: "directive_d (digit_char (day div 10) # digit_char (day mod 10) # [])
       = (day, []) # more_d"
    using directive_d_digits [OF d1 d3] by blast
  have "format_regex_match (isoformat dt) = Some (year, month, day, [])"
    unfolding format_regex_match_def isoformat_def dt
    by (simp add: directive_Y_digits [OF y] literal_def mm dd)
  then show ?thesis
    using assms unfolding strptime_def dt by simp
qed

lemma div_pred:
  fixes y k :: int
  assumes "0 < k"
  shows "(y - 1) div k = y div k - (if y mod k = 0 then 1 else 0)"
proof (cases "y mod k = 0")
  case True
  have "y = k * (y div k) + y mod k" by simp
  then have "y - 1 = k * (y div k - 1) + (k - 1)" using True by (simp add: algebra_simps)
  then have "(y - 1) div k = y div k - 1"
    by (rule int_div_pos_eq) (use assms in simp_all)
  then show ?thesis using True by simp
next
  case False
  have "y = k * (y div k) + y mod k" by simp
  then have e: "y - 1 = k * (y div k) + (y mod k - 1)" by simp
  have "0 \<le> y mod k" "y mod k < k" using assms by simp_all
  then have r: "0 \<le> y mod k - 1" "y mod k - 1 < k" using False by simp_all
  have "(y - 1) div k = y div k"
    using e r by (rule int_div_pos_eq)
  then show ?thesis using False by simp
qed

lemma leap_count:
  fixes q4 q100 q400 :: int
  assumes "p100 \<Longrightarrow> p4" "p400 \<Longrightarrow> p100"
  shows "q4 - q100 + q400
          - ((q4 - (if p4 then 1 else 0)) - (q100 - (if p100 then 1 else 0))
             + (q400 - (if p400 then 1 else 0)))
        = (if p4 \<and> (\<not> p100 \<or> p400) then 1 else 0)"
  using assms by auto

lemma year_step:
  "days_before_year (year + 1) = days_before_year year + 365 + (if is_leap year then 1 else 0)"
proof -
  have a: "(year - 1) div 4 = year div 4 - (if year mod 4 = 0 then 1 else 0)"
    by (rule div_pred) simp
  have b: "(year - 1) div 100 = year div 100 - (if year mod 100 = 0 then 1 else 0)"
    by (rule div_pred) simp
  have c: "(year - 1) div 400 = year div 400 - (if year mod 400 = 0 then 1 else 0)"
    by (rule div_pred) simp
  have d: "year mod 100 = 0 \<Longrightarrow> year mod 4 = 0"
    using mod_mod_cancel [of 4 100 year] by simp
  have e: "year mod 400 = 0 \<Longrightarrow> year mod 100 = 0"
    using mod_mod_cancel [of 100 400 year] by simp
  have "year div 4 - year div 100 + year div 400
          - ((year - 1) div 4 - (year - 1) div 100 + (year - 1) div 400)
        = (if is_leap year then 1 else 0)"
    unfolding a b c is_leap_def by (rule leap_count) (erule d, erule e)
  then show ?thesis
    unfolding days_before_year_def Let_def by (simp add: algebra_simps)
qed

lemma month_step:
  assumes "1 \<le> month" "month < 12"
  shows "days_before_month year (month + 1) = days_before_month year month + days_in_month year month"
proof -
  from assms have "1 \<le> month" "month \<le> 12" by simp_all
  from month_cases [OF this] assms(2) show ?thesis
    by (elim disjE) (simp_all add: days_before_month_def days_in_month_def)
qed

lemma days_in_month_pos:
  assumes "1 \<le> month" "month \<le> 12"
  shows "1 \<le> days_in_month year month"
  using month_cases [OF assms]
  by (elim disjE) (simp_all add: days_in_month_def)

lemma ymd2ord_next_day:
  assumes "valid_date dt"
  shows "ymd2ord (next_day dt) = ymd2ord dt + 1"
proof -
  obtain year month day where dt: "dt = (year, month, day)" by (cases dt) auto
  from assms have m: "1 \<le> month" "month \<le> 12" and d: "day \<le> days_in_month year month"
    unfolding dt valid_date_def by simp_all
  show ?thesis
  proof (cases "day < days_in_month year month")
    case True
    then show ?thesis by (simp add: dt next_day_def ymd2ord_def)
  next
    case False
    with d have e: "day = days_in_month year month" by simp
    show ?thesis
    proof (cases "month < 12")
      case True
      then show ?thesis
        using False month_step [OF m(1) True, of year]
        by (simp add: dt next_day_def ymd2ord_def e)
    next
      case False
      with m have m12: "month = 12" by simp
      show ?thesis
        using year_step [of year]
        by (simp add: dt next_day_def ymd2ord_def e m12 days_in_month_def days_before_month_def)
    qed
  qed
qed

lemma valid_next_day:
  assumes "valid_date dt" "fst (next_day dt) \<le> 9999"
  shows "valid_date (next_day dt)"
proof -
  obtain year month day where dt: "dt = (year, month, day)" by (cases dt) auto
  from assms(1) have y: "1 \<le> year" and m: "1 \<le> month" "month \<le> 12" and d: "1 \<le> day"
    unfolding dt valid_date_def by simp_all
  show ?thesis
  proof (cases "day < days_in_month year month")
    case True
    then show ?thesis using assms y m d by (simp add: dt next_day_def valid_date_def)
  next
    case False
    show ?thesis
    proof (cases "month < 12")
      case True
      then have "1 \<le> month + 1" "month + 1 \<le> 12" using m by simp_all
      from days_in_month_pos [OF this, of year] show ?thesis
        using False True assms y m by (simp add: dt next_day_def valid_date_def)
    next
      case False
      then show ?thesis
        using \<open>\<not> day < days_in_month year month\<close> assms y
        by (simp add: dt next_day_def valid_date_def days_in_month_def)
    qed
  qed
qed

lemma year_next_day: "fst dt \<le> fst (next_day dt)"
  by (cases dt) (simp add: next_day_def)

lemma days_later:
  assumes "valid_date dt"
  shows "fst ((next_day ^^ n) dt) \<le> 9999 \<Longrightarrow>
           valid_date ((next_day ^^ n) dt) \<and> ymd2ord ((next_day ^^ n) dt) = ymd2ord dt + int n"
proof (induction n)
  case 0
  then show ?case using assms by simp
next
  case (Suc n)
  have "fst ((next_day ^^ n) dt) \<le> fst (next_day ((next_day ^^ n) dt))" by (rule year_next_day)
  with Suc.prems have "fst ((next_day ^^ n) dt) \<le> 9999" by simp
  from Suc.IH [OF this] have v: "valid_date ((next_day ^^ n) dt)"
    and o: "ymd2ord ((next_day ^^ n) dt) = ymd2ord dt + int n" by simp_all
  have "valid_date (next_day ((next_day ^^ n) dt))"
    using valid_next_day [OF v] Suc.prems by simp
  moreover have "ymd2ord (next_day ((next_day ^^ n) dt)) = ymd2ord dt + int (Suc n)"
    using ymd2ord_next_day [OF v] o by simp
  ultimately show ?case by simp
qed

lemma valid_year: "valid_date dt \<Longrightarrow> fst dt \<le> 9999"
  by (cases dt) (simp add: valid_date_def)

text \<open>
  C10: \<^verbatim>\<open>_calculate_time_span\<close> parses both arguments as YYYY-MM-DD dates and returns
  the difference in whole days, end minus start. Whenever both parse, the result is the
  difference of the two day ordinals, and the ordinal of the \<open>n\<close>-th calendar day after
  a date is \<open>n\<close> more than that of the date; so from the text of a date to the text of
  the \<open>n\<close>-th day after it the result is \<open>n\<close>, and \<open>- n\<close> in the other direction.
  On a parse failure of either argument the result is the fallback 365. From
  2023-01-01 to 2023-01-11 it returns 10, across the leap day from 2024-02-28 to
  2024-03-01 it returns 2, across the new year from 2023-12-31 to 2024-01-01 it returns
  1, from 2019-01-01 to 2023-01-01 it returns 1461, and with the start \<^verbatim>\<open>bad\<close> it
  returns 365.
\<close>

theorem calculate_time_span_spec:
  "(\<forall>a b. strptime start_date = Inr a \<and> strptime end_date = Inr b \<longrightarrow>
       calculate_time_span start_date end_date = ymd2ord b - ymd2ord a)
   \<and> ((\<exists>e. strptime start_date = Inl e) \<or> (\<exists>e. strptime end_date = Inl e) \<longrightarrow>
       calculate_time_span start_date end_date = 365)
   \<and> (valid_date d1 \<and> valid_date d2 \<longrightarrow>
       strptime (isoformat d1) = Inr d1 \<and> strptime (isoformat d2) = Inr d2
       \<and> calculate_time_span (isoformat d1) (isoformat d2) = ymd2ord d2 - ymd2ord d1)
   \<and> (valid_date d1 \<and> valid_date ((next_day ^^ n) d1) \<longrightarrow>
       ymd2ord ((next_day ^^ n) d1) = ymd2ord d1 + int n
       \<and> calculate_time_span (isoformat d1) (isoformat ((next_day ^^ n) d1)) = int n
       \<and> calculate_time_span (isoformat ((next_day ^^ n) d1)) (isoformat d1) = - int n)
   \<and> ymd2ord (1, 1, 1) = 1
   \<and> calculate_time_span ''2023-01-01'' ''2023-01-11'' = 10
   \<and> calculate_time_span ''2024-02-28'' ''2024-03-01'' = 2
   \<and> calculate_time_span ''2023-12-31'' ''2024-01-01'' = 1
   \<and> calculate_time_span ''2019-01-01'' ''2023-01-01'' = 1461
   \<and> calculate_time_span ''bad'' ''2023-01-01'' = 365"
proof (intro conjI impI allI)
  fix a b
  assume "strptime start_date = Inr a \<and> strptime end_date = Inr b"
  then show "calculate_time_span start_date end_date = ymd2ord b - ymd2ord a"
    by (simp add: calculate_time_span_def)
next
  assume "(\<exists>e. strptime start_date = Inl e) \<or> (\<exists>e. strptime end_date = Inl e)"
  then show "calculate_time_span start_date end_date = 365"
    by (auto simp add: calculate_time_span_def split: sum.splits)
next
  assume v: "valid_date d1 \<and> valid_date d2"
  then show "strptime (isoformat d1) = Inr d1" "strptime (isoformat d2) = Inr d2"
    by (simp_all add: strptime_isoformat)
  then show "calculate_time_span (isoformat d1) (isoformat d2) = ymd2ord d2 - ymd2ord d1"
    by (simp add: calculate_time_span_def)
next
  assume v: "valid_date d1 \<and> valid_date ((next_day ^^ n) d1)"
  then have v1: "valid_date d1" and v2: "valid_date ((next_day ^^ n) d1)" by blast+
  from days_later [OF v1 valid_year [OF v2]]
  show o: "ymd2ord ((next_day ^^ n) d1) = ymd2ord d1 + int n" by blast
  show "calculate_time_span (isoformat d1) (isoformat ((next_day ^^ n) d1)) = int n"
    by (simp add: calculate_time_span_def strptime_isoformat [OF v1] strptime_isoformat [OF v2] o)
  show "calculate_time_span (isoformat ((next_day ^^ n) d1)) (isoformat d1) = - int n"
    by (simp add: calculate_time_span_def strptime_isoformat [OF v1] strptime_isoformat [OF v2] o)
next
  show "ymd2ord (1, 1, 1) = 1" by code_simp
next
  show "calculate_time_span ''2023-01-01'' ''2023-01-11'' = 10" by code_simp
next
  show "calculate_time_span ''2024-02-28'' ''2024-03-01'' = 2" by code_simp
next
  show "calculate_time_span ''2023-12-31'' ''2024-01-01'' = 1" by code_simp
next
  show "calculate_time_span ''2019-01-01'' ''2023-01-01'' = 1461" by code_simp
next
  show "calculate_time_span ''bad'' ''2023-01-01'' = 365" by code_simp
qed

theorem calculate_time_span_spec_witness:
  "strptime ''2023-01-01'' = Inr (2023, 1, 1) \<and> strptime ''2023-01-11'' = Inr (2023, 1, 11)
   \<and> calculate_time_span ''2023-01-01'' ''2023-01-11'' = ymd2ord (2023, 1, 11) - ymd2ord (2023, 1, 1)
   \<and> strptime ''2023-02-30'' = Inl ValueError
   \<and> calculate_time_span ''2023-01-01'' ''2023-02-30'' = 365
   \<and> valid_date (2024, 2, 28) \<and> valid_date (2024, 3, 1)
   \<and> calculate_time_span (isoformat (2024, 2, 28)) (isoformat (2024, 3, 1))
        = ymd2ord (2024, 3, 1) - ymd2ord (2024, 2, 28)
   \<and> (next_day ^^ 2) (2024, 2, 28) = (2024, 3, 1)
   \<and> valid_date ((next_day ^^ 2) (2024, 2, 28))
   \<and> calculate_time_span (isoformat (2024, 2, 28)) (isoformat ((next_day ^^ 2) (2024, 2, 28))) = 2"
proof -
  have p1: "strptime ''2023-01-01'' = Inr (2023, 1, 1)" by code_simp
  have p2: "strptime ''2023-01-11'' = Inr (2023, 1, 11)" by code_simp
  have p3: "strptime ''2023-02-30'' = Inl ValueError" by code_simp
  have v1: "valid_date (2024, 2, 28)" by code_simp
  have v2: "valid_date (2024, 3, 1)" by code_simp
  have n2: "(next_day ^^ 2) (2024, 2, 28) = (2024, 3, 1)" by code_simp
  have v3: "valid_date ((next_day ^^ 2) (2024, 2, 28))" unfolding n2 by (rule v2)
  have a: "calculate_time_span ''2023-01-01'' ''2023-01-11''
             = ymd2ord (2023, 1, 11) - ymd2ord (2023, 1, 1)"
    using calculate_time_span_spec [of "''2023-01-01''" "''2023-01-11''"] p1 p2 by blast
  have b: "calculate_time_span ''2023-01-01'' ''2023-02-30'' = 365"
    using calculate_time_span_spec [of "''2023-01-01''" "''2023-02-30''"] p3 by blast
  have c: "calculate_time_span (isoformat (2024, 2, 28)) (isoformat (2024, 3, 1))
        = ymd2ord (2024, 3, 1) - ymd2ord (2024, 2, 28)"
    using calculate_time_span_spec [of _ _ "(2024, 2, 28)" "(2024, 3, 1)"] v1 v2 by blast
  have d: "calculate_time_span (isoformat (2024, 2, 28))
             (isoformat ((next_day ^^ 2) (2024, 2, 28))) = int 2"
    using calculate_time_span_spec [of _ _ "(2024, 2, 28)" _ 2] v1 v3 by blast
  show ?thesis using p1 p2 p3 v1 v2 n2 v3 a b c d by simp
qed

end
